theory Spec2Isabelle
  imports Main "HOL-Library.Word" "HOL-Library.AList" "HOL-Library.Char_ord"
    "HOL-Library.List_Lexorder"
begin

unbundle bit_operations_syntax

section \<open>Qt value types used by the host manager\<close>

text \<open>
  \<open>QString\<close> and \<open>QByteArray\<close> distinguish a null value (default constructed, or
  assigned \<open>nullptr\<close>) from an empty one. The source tests both \<open>isNull()\<close> and
  \<open>isEmpty()\<close>, so the distinction is kept: \<open>None\<close> is the null value, \<open>Some []\<close> the
  empty non-null one. \<open>operator==\<close> of both classes compares size and contents only, so
  a null and an empty value are equal for \<open>==\<close> and \<open>!=\<close>.
\<close>

type_synonym QString = "string option"
type_synonym QByteArray = "8 word list option"

definition isNull :: "'a list option \<Rightarrow> bool" where
  "isNull q = (q = None)"

definition constData :: "'a list option \<Rightarrow> 'a list" where
  "constData q = (case q of None \<Rightarrow> [] | Some xs \<Rightarrow> xs)"

definition isEmpty :: "'a list option \<Rightarrow> bool" where
  "isEmpty q = (constData q = [])"

definition qeq :: "'a list option \<Rightarrow> 'a list option \<Rightarrow> bool" where
  "qeq a b = (constData a = constData b)"

definition qneq :: "'a list option \<Rightarrow> 'a list option \<Rightarrow> bool" where
  "qneq a b = (\<not> qeq a b)"

text \<open>\<open>Q_ASSERT\<close> is read as in a build with assertions enabled: a failed assertion
  aborts the program. The abort is the error value of every function that asserts.\<close>

datatype error = AssertionFailed

section \<open>The host record\<close>

text \<open>Modelled from the spec: \<open>NvApp\<close> is declared in a header that is not part of the
  source. Its three fields are the ones the source reads and writes; its
  \<open>operator==\<close>, which \<open>QVector::operator!=\<close> needs, is taken to compare all three.\<close>

record NvApp =
  app_name :: QString
  app_id :: "32 word"
  hdrSupported :: bool

datatype PairState = PS_UNKNOWN | PS_PAIRED | PS_NOT_PAIRED

datatype ComputerState = CS_UNKNOWN | CS_ONLINE | CS_OFFLINE

record NvComputer =
  name :: QString
  uuid :: QString
  macAddress :: QByteArray
  serverCodecModeSupport :: "32 word"
  localAddress :: QString
  remoteAddress :: QString
  manualAddress :: QString
  activeAddress :: QString
  pairState :: PairState
  state :: ComputerState
  currentGameId :: "32 word"
  gfeVersion :: QString
  appVersion :: QString
  appList :: "NvApp list"

section \<open>Merging an observation into a record: \<open>NvComputer::update\<close>\<close>

text \<open>The two macros of \<open>update\<close>, as functions of a field's selector and update
  function and of the field type's \<open>!=\<close> (and \<open>isEmpty\<close>). They act on the pair of the
  local variable \<open>changed\<close> and the object \<open>this\<close>.\<close>

definition ASSIGN_IF_CHANGED ::
  "('r \<Rightarrow> 'f) \<Rightarrow> (('f \<Rightarrow> 'f) \<Rightarrow> 'r \<Rightarrow> 'r) \<Rightarrow> ('f \<Rightarrow> 'f \<Rightarrow> bool) \<Rightarrow> 'r \<Rightarrow> bool \<times> 'r \<Rightarrow> bool \<times> 'r" where
  "ASSIGN_IF_CHANGED field field_upd neq that s =
     (case s of (changed, this) \<Rightarrow>
        if neq (field this) (field that)
        then (True, field_upd (\<lambda>_. field that) this)
        else (changed, this))"

definition ASSIGN_IF_CHANGED_AND_NONEMPTY ::
  "('r \<Rightarrow> 'f) \<Rightarrow> (('f \<Rightarrow> 'f) \<Rightarrow> 'r \<Rightarrow> 'r) \<Rightarrow> ('f \<Rightarrow> bool) \<Rightarrow> ('f \<Rightarrow> 'f \<Rightarrow> bool) \<Rightarrow> 'r \<Rightarrow> bool \<times> 'r \<Rightarrow> bool \<times> 'r" where
  "ASSIGN_IF_CHANGED_AND_NONEMPTY field field_upd is_empty neq that s =
     (case s of (changed, this) \<Rightarrow>
        if \<not> is_empty (field that) \<and> neq (field this) (field that)
        then (True, field_upd (\<lambda>_. field that) this)
        else (changed, this))"

definition update :: "NvComputer \<Rightarrow> NvComputer \<Rightarrow> error + (bool \<times> NvComputer)" where
  "update this that =
     (if \<not> qeq (uuid this) (uuid that) then Inl AssertionFailed
      else
        let s = (False, this);
            s = ASSIGN_IF_CHANGED name name_update qneq that s;
            s = ASSIGN_IF_CHANGED_AND_NONEMPTY macAddress macAddress_update isEmpty qneq that s;
            s = ASSIGN_IF_CHANGED_AND_NONEMPTY localAddress localAddress_update isEmpty qneq that s;
            s = ASSIGN_IF_CHANGED_AND_NONEMPTY remoteAddress remoteAddress_update isEmpty qneq that s;
            s = ASSIGN_IF_CHANGED_AND_NONEMPTY manualAddress manualAddress_update isEmpty qneq that s;
            s = ASSIGN_IF_CHANGED pairState pairState_update (\<noteq>) that s;
            s = ASSIGN_IF_CHANGED serverCodecModeSupport serverCodecModeSupport_update (\<noteq>) that s;
            s = ASSIGN_IF_CHANGED currentGameId currentGameId_update (\<noteq>) that s;
            s = ASSIGN_IF_CHANGED activeAddress activeAddress_update qneq that s;
            s = ASSIGN_IF_CHANGED state state_update (\<noteq>) that s;
            s = ASSIGN_IF_CHANGED gfeVersion gfeVersion_update qneq that s;
            s = ASSIGN_IF_CHANGED appVersion appVersion_update qneq that s;
            s = ASSIGN_IF_CHANGED_AND_NONEMPTY appList appList_update (\<lambda>l. l = []) (\<noteq>) that s
        in Inr s)"


text \<open>The two per-field policies in the words of the specification, for comparison with
  the macros: overwrite when the observed value differs, and overwrite when the
  observed value is non-empty and differs.\<close>

definition overwrite_if_different :: "('f \<Rightarrow> 'f \<Rightarrow> bool) \<Rightarrow> 'f \<Rightarrow> 'f \<Rightarrow> 'f" where
  "overwrite_if_different differs old new = (if differs old new then new else old)"

definition overwrite_if_nonempty_and_different ::
  "('f \<Rightarrow> bool) \<Rightarrow> ('f \<Rightarrow> 'f \<Rightarrow> bool) \<Rightarrow> 'f \<Rightarrow> 'f \<Rightarrow> 'f" where
  "overwrite_if_nonempty_and_different is_empty differs old new =
     (if \<not> is_empty new \<and> differs old new then new else old)"

section \<open>Address precedence: \<open>NvComputer::uniqueAddresses\<close>\<close>

text \<open>\<open>QVector::remove(i)\<close> deletes the element at index \<open>i\<close>.\<close>

definition removeAt :: "nat \<Rightarrow> 'a list \<Rightarrow> 'a list" where
  "removeAt i xs = take i xs @ drop (Suc i) xs"

text \<open>The inner loop over \<open>j\<close>: a later element equal to the one at \<open>i\<close> is removed,
  and \<open>j--\<close> followed by the loop's \<open>j++\<close> looks at the same index again.\<close>

function pruneLater :: "nat \<Rightarrow> nat \<Rightarrow> QString list \<Rightarrow> QString list" where
  "pruneLater i j xs =
     (if j < length xs
      then (if qeq (xs ! i) (xs ! j) then pruneLater i j (removeAt j xs)
            else pruneLater i (Suc j) xs)
      else xs)"
  by pat_completeness auto
termination
  by (relation "measure (\<lambda>(i, j, xs). length xs - j)") (auto simp: removeAt_def)

declare pruneLater.simps [simp del]

text \<open>The outer loop over \<open>i\<close>: an empty or null element is removed (\<open>i--\<close>,
  \<open>continue\<close> and the loop's \<open>i++\<close> leave \<open>i\<close> where it is), any other element has
  its later duplicates pruned.\<close>

function pruneLoop :: "nat \<Rightarrow> QString list \<Rightarrow> QString list" where
  "pruneLoop i xs =
     (if i < length xs
      then (if isEmpty (xs ! i) \<or> isNull (xs ! i) then pruneLoop i (removeAt i xs)
            else pruneLoop (Suc i) (pruneLater i (Suc i) xs))
      else xs)"
  by pat_completeness auto
termination
proof -
  have shrink: "length (pruneLater i j xs) \<le> length xs" for i j xs
  proof (induction i j xs rule: pruneLater.induct)
    case (1 i j xs)
    show ?case
    proof (cases "j < length xs")
      case False
      then show ?thesis by (simp add: pruneLater.simps [of i j xs])
    next
      case inside: True
      show ?thesis
      proof (cases "qeq (xs ! i) (xs ! j)")
        case True
        with inside "1.IH"(1) have "length (pruneLater i j (removeAt j xs)) \<le> length (removeAt j xs)"
          by simp
        with inside True show ?thesis by (simp add: pruneLater.simps [of i j xs] removeAt_def)
      next
        case False
        with inside "1.IH"(2) show ?thesis by (simp add: pruneLater.simps [of i j xs])
      qed
    qed
  qed
  show ?thesis
    apply (relation "measure (\<lambda>(i, xs). length xs - i)")
      apply simp
     apply (simp add: removeAt_def)
    subgoal for i xs using shrink [of i "Suc i" xs] by simp
    done
qed

declare pruneLoop.simps [simp del]

definition uniqueAddresses :: "NvComputer \<Rightarrow> error + QString list" where
  "uniqueAddresses c =
     (let uniqueAddressList = [activeAddress c, localAddress c, remoteAddress c, manualAddress c];
          uniqueAddressList = pruneLoop 0 uniqueAddressList
      in if length uniqueAddressList = 0 then Inl AssertionFailed else Inr uniqueAddressList)"

text \<open>The result in the words of the specification: empty entries removed, then every
  later duplicate of an earlier value removed, the earliest occurrence kept.\<close>

fun keep_first :: "QString list \<Rightarrow> QString list" where
  "keep_first [] = []"
| "keep_first (x # xs) = x # keep_first (filter (\<lambda>y. \<not> qeq x y) xs)"

definition unique_addresses_spec :: "NvComputer \<Rightarrow> QString list" where
  "unique_addresses_spec c =
     keep_first (filter (\<lambda>a. \<not> isEmpty a)
       [activeAddress c, localAddress c, remoteAddress c, manualAddress c])"

section \<open>Wake-on-LAN: \<open>NvComputer::wake\<close>\<close>

type_synonym quint16 = "16 word"
type_synonym qint64 = "64 word"

text \<open>\<open>QByteArray::fromHex\<close>: the hexadecimal digits of the input, other characters
  skipped, paired into bytes from the end of the input.\<close>

definition hexDigit :: "char \<Rightarrow> 8 word option" where
  "hexDigit c =
     (let n = (of_char c :: nat) in
      if 48 \<le> n \<and> n \<le> 57 then Some (of_nat (n - 48))
      else if 65 \<le> n \<and> n \<le> 70 then Some (of_nat (n - 65 + 10))
      else if 97 \<le> n \<and> n \<le> 102 then Some (of_nat (n - 97 + 10))
      else None)"

fun pairNibbles :: "8 word list \<Rightarrow> 8 word list" where
  "pairNibbles (lo # hi # ds) = (push_bit 4 hi OR lo) # pairNibbles ds"
| "pairNibbles [lo] = [lo]"
| "pairNibbles [] = []"

definition fromHex :: "string \<Rightarrow> 8 word list" where
  "fromHex hexEncoded = rev (pairNibbles (rev (List.map_filter hexDigit hexEncoded)))"

text \<open>The payload: the header, then the loop that appends \<open>macAddress\<close> sixteen times.\<close>

fun appendTimes :: "nat \<Rightarrow> 'a list \<Rightarrow> 'a list \<Rightarrow> 'a list" where
  "appendTimes 0 payload mac = payload"
| "appendTimes (Suc n) payload mac = appendTimes n (payload @ mac) mac"

definition wolPayload :: "QByteArray \<Rightarrow> 8 word list" where
  "wolPayload mac = appendTimes 16 (fromHex ''FFFFFFFFFFFF'') (constData mac)"

text \<open>The network is the environment of \<open>wake\<close>: what \<open>QHostInfo::fromName\<close> resolves a
  string to, whether \<open>QUdpSocket::bind\<close> succeeds, and what
  \<open>QUdpSocket::writeDatagram\<close> returns. \<open>writeDatagram\<close> returns a \<open>qint64\<close>: the
  number of bytes sent, or \<open>-1\<close> when the datagram could not be sent. The source uses
  that integer as the condition of an \<open>if\<close>, which is true for every value but \<open>0\<close>.
  The list of datagrams handed to \<open>writeDatagram\<close>, each with its result, is returned
  beside the result of \<open>wake\<close>.\<close>

datatype NetworkLayerProtocol = IPv4Protocol | IPv6Protocol | AnyIPProtocol | UnknownNetworkLayerProtocol

datatype SpecialAddress = AnyIPv4 | AnyIPv6

record QHostAddress =
  protocol :: NetworkLayerProtocol
  toString :: string

record Network =
  fromName :: "QString \<Rightarrow> QHostAddress list"
  bind :: "SpecialAddress \<Rightarrow> bool"
  writeDatagram :: "8 word list \<Rightarrow> QHostAddress \<Rightarrow> quint16 \<Rightarrow> qint64"

record Datagram =
  datagram :: "8 word list"
  host :: QHostAddress
  port :: quint16
  bytesSent :: qint64

definition WOL_PORTS :: "quint16 list" where
  "WOL_PORTS = [7, 9, 47998, 47999, 48000]"

text \<open>The three nested loops, innermost first; each threads the local variable
  \<open>success\<close> and the datagrams sent so far.\<close>

fun sendToPorts ::
  "Network \<Rightarrow> 8 word list \<Rightarrow> QHostAddress \<Rightarrow> quint16 list \<Rightarrow> bool \<times> Datagram list \<Rightarrow> bool \<times> Datagram list" where
  "sendToPorts net payload address [] s = s"
| "sendToPorts net payload address (p # ports) (success, sent) =
     (let r = writeDatagram net payload address p;
          sent = sent @ [\<lparr>datagram = payload, host = address, port = p, bytesSent = r\<rparr>]
      in sendToPorts net payload address ports (if r \<noteq> 0 then True else success, sent))"

fun sendToAddresses ::
  "Network \<Rightarrow> 8 word list \<Rightarrow> QHostAddress list \<Rightarrow> bool \<times> Datagram list \<Rightarrow> bool \<times> Datagram list" where
  "sendToAddresses net payload [] s = s"
| "sendToAddresses net payload (address # addresses) s =
     sendToAddresses net payload addresses
       (if bind net (if protocol address = IPv4Protocol then AnyIPv4 else AnyIPv6)
        then sendToPorts net payload address WOL_PORTS s
        else s)"

fun sendToNames ::
  "Network \<Rightarrow> 8 word list \<Rightarrow> QString list \<Rightarrow> bool \<times> Datagram list \<Rightarrow> bool \<times> Datagram list" where
  "sendToNames net payload [] s = s"
| "sendToNames net payload (addressString # addressList) s =
     sendToNames net payload addressList
       (sendToAddresses net payload (fromName net addressString) s)"

definition wake :: "Network \<Rightarrow> NvComputer \<Rightarrow> (error + bool) \<times> Datagram list" where
  "wake net c =
     (if state c = CS_ONLINE then (Inr True, [])
      else if isNull (macAddress c) then (Inr False, [])
      else if length (wolPayload (macAddress c)) \<noteq> 102 then (Inl AssertionFailed, [])
      else case uniqueAddresses c of
             Inl e \<Rightarrow> (Inl e, [])
           | Inr addressList \<Rightarrow>
               (case sendToNames net (wolPayload (macAddress c))
                       (addressList @ [Some ''255.255.255.255'']) (False, []) of
                  (success, sent) \<Rightarrow> (Inr success, sent)))"

text \<open>The payload in the words of the specification: six bytes \<open>0xFF\<close>, then the
  physical address sixteen times.\<close>

definition magic_packet :: "8 word list \<Rightarrow> 8 word list" where
  "magic_packet mac = replicate 6 0xFF @ concat (replicate 16 mac)"

text \<open>The invariant of the three loops: \<open>success\<close> is set exactly when some call of
  \<open>writeDatagram\<close> so far returned a value other than \<open>0\<close>.\<close>

definition tally :: "bool \<times> Datagram list \<Rightarrow> bool" where
  "tally s = (fst s \<longleftrightarrow> (\<exists>d \<in> set (snd s). bytesSent d \<noteq> 0))"

section \<open>Persistence: \<open>QSettings\<close>, \<open>NvComputer::serialize\<close> and \<open>saveHosts\<close>\<close>

text \<open>The settings object is the environment of \<open>serialize\<close>: a store of values under
  hierarchical keys, and the stack of the arrays begun. A key such as
  \<open>hosts/1/apps/size\<close> is the list of its parts, an array index being a part of its
  own. \<open>setValue\<close> and \<open>remove\<close> act on the key below the current prefix, \<open>remove\<close>
  on every key under it as well; \<open>beginWriteArray\<close> without a size removes the
  array's \<open>size\<close> entry, \<open>setArrayIndex(i)\<close> moves to the entry \<open>i + 1\<close>, and
  \<open>endArray\<close> stores the largest index set as the array's \<open>size\<close>.\<close>

datatype KeyPart = Key string | Index nat

type_synonym SettingsKey = "KeyPart list"

datatype QVariant = VString QString | VByteArray QByteArray | VInt "32 word" | VBool bool

type_synonym Store = "(SettingsKey \<times> QVariant) list"

record QSettingsGroup =
  str :: string
  num :: nat
  maxNum :: nat

record QSettings =
  store :: Store
  groupStack :: "QSettingsGroup list"

definition groupToString :: "QSettingsGroup \<Rightarrow> SettingsKey" where
  "groupToString g = (if num g > 0 then [Key (str g), Index (num g)] else [Key (str g)])"

definition groupPrefix :: "QSettings \<Rightarrow> SettingsKey" where
  "groupPrefix s = concat (map groupToString (rev (groupStack s)))"

definition actualKey :: "QSettings \<Rightarrow> string \<Rightarrow> SettingsKey" where
  "actualKey s key = groupPrefix s @ [Key key]"

definition isUnder :: "SettingsKey \<Rightarrow> SettingsKey \<Rightarrow> bool" where
  "isUnder p k = (take (length p) k = p)"

definition setValue :: "string \<Rightarrow> QVariant \<Rightarrow> QSettings \<Rightarrow> QSettings" where
  "setValue key v s = s\<lparr>store := AList.update (actualKey s key) v (store s)\<rparr>"

definition remove :: "string \<Rightarrow> QSettings \<Rightarrow> QSettings" where
  "remove key s = s\<lparr>store := filter (\<lambda>(k, v). \<not> isUnder (actualKey s key) k) (store s)\<rparr>"

definition beginWriteArray :: "string \<Rightarrow> QSettings \<Rightarrow> QSettings" where
  "beginWriteArray prefix s =
     remove ''size'' (s\<lparr>groupStack := \<lparr>str = prefix, num = 0, maxNum = 0\<rparr> # groupStack s\<rparr>)"

definition setArrayIndex :: "nat \<Rightarrow> QSettings \<Rightarrow> QSettings" where
  "setArrayIndex i s =
     (case groupStack s of
        [] \<Rightarrow> s
      | g # below \<Rightarrow>
          s\<lparr>groupStack := g\<lparr>num := i + 1, maxNum := max (maxNum g) (i + 1)\<rparr> # below\<rparr>)"

definition endArray :: "QSettings \<Rightarrow> QSettings" where
  "endArray s =
     (case groupStack s of
        [] \<Rightarrow> s
      | g # below \<Rightarrow>
          (let s = s\<lparr>groupStack := below\<rparr>
           in s\<lparr>store := AList.update (groupPrefix s @ [Key (str g), Key ''size''])
                                  (VInt (of_nat (maxNum g))) (store s)\<rparr>))"

text \<open>The key names of the source.\<close>

abbreviation SER_HOSTS :: string where "SER_HOSTS \<equiv> ''hosts''"
abbreviation SER_NAME :: string where "SER_NAME \<equiv> ''hostname''"
abbreviation SER_UUID :: string where "SER_UUID \<equiv> ''uuid''"
abbreviation SER_MAC :: string where "SER_MAC \<equiv> ''mac''"
abbreviation SER_CODECSUPP :: string where "SER_CODECSUPP \<equiv> ''codecsupport''"
abbreviation SER_LOCALADDR :: string where "SER_LOCALADDR \<equiv> ''localaddress''"
abbreviation SER_REMOTEADDR :: string where "SER_REMOTEADDR \<equiv> ''remoteaddress''"
abbreviation SER_MANUALADDR :: string where "SER_MANUALADDR \<equiv> ''manualaddress''"
abbreviation SER_APPLIST :: string where "SER_APPLIST \<equiv> ''apps''"
abbreviation SER_APPNAME :: string where "SER_APPNAME \<equiv> ''name''"
abbreviation SER_APPID :: string where "SER_APPID \<equiv> ''id''"
abbreviation SER_APPHDR :: string where "SER_APPHDR \<equiv> ''hdr''"

text \<open>The body of the loop over \<open>appList\<close>, and \<open>serialize\<close>. The read lock it takes is
  released on return and has no part in the result.\<close>

definition writeApp :: "NvApp list \<Rightarrow> nat \<Rightarrow> QSettings \<Rightarrow> QSettings" where
  "writeApp apps i settings =
     (let settings = setArrayIndex i settings;
          settings = setValue SER_APPNAME (VString (app_name (apps ! i))) settings;
          settings = setValue SER_APPID (VInt (app_id (apps ! i))) settings
      in setValue SER_APPHDR (VBool (hdrSupported (apps ! i))) settings)"

definition serialize :: "NvComputer \<Rightarrow> QSettings \<Rightarrow> QSettings" where
  "serialize c settings =
     (let settings = setValue SER_NAME (VString (name c)) settings;
          settings = setValue SER_UUID (VString (uuid c)) settings;
          settings = setValue SER_MAC (VByteArray (macAddress c)) settings;
          settings = setValue SER_CODECSUPP (VInt (serverCodecModeSupport c)) settings;
          settings = setValue SER_LOCALADDR (VString (localAddress c)) settings;
          settings = setValue SER_REMOTEADDR (VString (remoteAddress c)) settings;
          settings = setValue SER_MANUALADDR (VString (manualAddress c)) settings
      in if \<not> (appList c = [])
         then
           (let settings = remove SER_APPLIST settings;
                settings = beginWriteArray SER_APPLIST settings;
                settings = fold (writeApp (appList c)) [0..<length (appList c)] settings
            in endArray settings)
         else settings)"

text \<open>\<open>QMap\<close> keeps its entries in the order of their keys; it is the list of its
  entries in that order. \<open>m_KnownHosts\<close> is keyed by the characters of the \<open>uuid\<close>.
  \<open>saveHosts\<close> opens the application's settings afresh, so it takes and returns the
  store.\<close>

type_synonym ('k, 'v) QMap = "('k \<times> 'v) list"

definition keys :: "('k, 'v) QMap \<Rightarrow> 'k list" where
  "keys m = map fst m"

definition writeHost :: "(string, NvComputer) QMap \<Rightarrow> nat \<Rightarrow> QSettings \<Rightarrow> QSettings" where
  "writeHost m i settings =
     (let settings = setArrayIndex i settings
      in case map_of m (keys m ! i) of
           Some computer \<Rightarrow> serialize computer settings
         | None \<Rightarrow> settings)"

definition saveHosts :: "(string, NvComputer) QMap \<Rightarrow> Store \<Rightarrow> Store" where
  "saveHosts m_KnownHosts persisted =
     (let settings = \<lparr>store = persisted, groupStack = []\<rparr>;
          settings = remove SER_HOSTS settings;
          settings = beginWriteArray SER_HOSTS settings;
          settings = fold (writeHost m_KnownHosts) [0..<length m_KnownHosts] settings
      in store (endArray settings))"

text \<open>The value stored under a key.\<close>

definition value_of :: "Store \<Rightarrow> SettingsKey \<Rightarrow> QVariant option" where
  "value_of st k = map_of st k"

section \<open>The host manager\<close>

text \<open>Insertion into a \<open>QMap\<close> (\<open>m[k] = v\<close>): at the key's place in the order, over an
  entry with the same key.\<close>

fun insert_sorted :: "'k::linorder \<Rightarrow> 'v \<Rightarrow> ('k, 'v) QMap \<Rightarrow> ('k, 'v) QMap" where
  "insert_sorted k v [] = [(k, v)]"
| "insert_sorted k v ((k', v') # m) =
     (if k < k' then (k, v) # (k', v') # m
      else if k = k' then (k, v) # m
      else (k', v') # insert_sorted k v m)"

text \<open>\<open>QString::split\<close> with one separator character, empty parts kept: a string
  without the separator, the empty string included, gives one part.\<close>

fun split :: "char \<Rightarrow> string \<Rightarrow> string list" where
  "split sep [] = [[]]"
| "split sep (c # cs) =
     (if c = sep then [] # split sep cs
      else (case split sep cs of
              [] \<Rightarrow> [[c]]
            | part # parts \<Rightarrow> (c # part) # parts))"

text \<open>The protocol client is the environment of \<open>addNewHost\<close>: \<open>getServerInfo\<close> is the
  status query, \<open>None\<close> when it throws; \<open>getXmlString\<close> and \<open>getCurrentGame\<close> read the
  payload; \<open>toInt\<close> is \<open>QString::toInt\<close> for a base.\<close>

record NvHTTP =
  getServerInfo :: "QString \<Rightarrow> QString option"
  getXmlString :: "QString \<Rightarrow> string \<Rightarrow> QString"
  getCurrentGame :: "QString \<Rightarrow> 32 word"
  toInt :: "nat \<Rightarrow> string \<Rightarrow> 32 word"

text \<open>The constructor \<open>NvComputer(address, serverInfo)\<close>. \<open>macAddress\<close> starts null and
  receives one byte for each part of the MAC string; \<open>manualAddress\<close> and \<open>appList\<close>
  are left as default constructed.\<close>

definition fromServerInfo :: "NvHTTP \<Rightarrow> QString \<Rightarrow> QString \<Rightarrow> NvComputer" where
  "fromServerInfo http address serverInfo =
     (let hostname = getXmlString http serverInfo ''hostname'';
          newMacString = getXmlString http serverInfo ''mac'';
          codecSupport = getXmlString http serverInfo ''ServerCodecModeSupport''
      in \<lparr>name = (if isNull hostname then Some ''UNKNOWN'' else hostname),
          uuid = getXmlString http serverInfo ''uniqueid'',
          macAddress =
            (if qneq newMacString (Some ''00:00:00:00:00:00'')
             then Some (map (\<lambda>macOctet. ucast (toInt http 16 macOctet))
                          (split CHR '':'' (constData newMacString)))
             else None),
          serverCodecModeSupport =
            (if \<not> isNull codecSupport then toInt http 10 (constData codecSupport) else 0),
          localAddress = getXmlString http serverInfo ''LocalIP'',
          remoteAddress = getXmlString http serverInfo ''ExternalIP'',
          manualAddress = None,
          activeAddress = address,
          pairState =
            (if qeq (getXmlString http serverInfo ''PairStatus'') (Some ''1'')
             then PS_PAIRED else PS_NOT_PAIRED),
          state = CS_ONLINE,
          currentGameId = getCurrentGame http serverInfo,
          gfeVersion = getXmlString http serverInfo ''GfeVersion'',
          appVersion = getXmlString http serverInfo ''appversion'',
          appList = []\<rparr>)"

text \<open>The manager: its members, the application's settings store that \<open>saveHosts\<close>
  writes, and the \<open>computerStateChanged\<close> signals emitted so far, each by the key of
  its record. A record of \<open>m_KnownHosts\<close> is the object the pointer in the source
  refers to; \<open>update\<close> on it changes the entry in place.\<close>

record PcMonitorThread =
  isRunning :: bool
  isInterruptionRequested :: bool

datatype Browser = Browser string

record ComputerManager =
  m_Polling :: bool
  m_MdnsBrowser :: "Browser option"
  m_KnownHosts :: "(string, NvComputer) QMap"
  m_PollThreads :: "(string, PcMonitorThread) QMap"
  m_PendingResolution :: "string list"
  savedSettings :: Store
  computerStateChanged :: "string list"

definition handleComputerStateChanged :: "NvComputer \<Rightarrow> ComputerManager \<Rightarrow> ComputerManager" where
  "handleComputerStateChanged computer m =
     (let m = m\<lparr>computerStateChanged := computerStateChanged m @ [constData (uuid computer)]\<rparr>
      in m\<lparr>savedSettings := saveHosts (m_KnownHosts m) (savedSettings m)\<rparr>)"

definition startPollingComputer :: "NvComputer \<Rightarrow> ComputerManager \<Rightarrow> error + ComputerManager" where
  "startPollingComputer computer m =
     (if \<not> m_Polling m then Inr m
      else case map_of (m_PollThreads m) (constData (uuid computer)) of
             Some thread \<Rightarrow> if isRunning thread then Inr m else Inl AssertionFailed
           | None \<Rightarrow>
               Inr (m\<lparr>m_PollThreads :=
                     insert_sorted (constData (uuid computer))
                       \<lparr>isRunning = True, isInterruptionRequested = False\<rparr> (m_PollThreads m)\<rparr>))"

fun startPollingAll :: "NvComputer list \<Rightarrow> ComputerManager \<Rightarrow> error + ComputerManager" where
  "startPollingAll [] m = Inr m"
| "startPollingAll (computer # computers) m =
     (case startPollingComputer computer m of
        Inl e \<Rightarrow> Inl e
      | Inr m \<Rightarrow> startPollingAll computers m)"

definition startPolling :: "ComputerManager \<Rightarrow> error + ComputerManager" where
  "startPolling m =
     (if m_Polling m then Inr m
      else
        (let m = m\<lparr>m_Polling := True\<rparr>;
             m = m\<lparr>m_MdnsBrowser := Some (Browser ''_nvstream._tcp.local.'')\<rparr>
         in startPollingAll (map snd (m_KnownHosts m)) m))"

text \<open>\<open>addNewHost\<close> returns the abort when an assertion below it fails, otherwise its
  boolean result and the manager after the call.\<close>

definition addNewHost ::
  "NvHTTP \<Rightarrow> QString \<Rightarrow> bool \<Rightarrow> ComputerManager \<Rightarrow> error + (bool \<times> ComputerManager)" where
  "addNewHost http address mdns m =
     (case getServerInfo http address of
        None \<Rightarrow> Inr (False, m)
      | Some serverInfo \<Rightarrow>
          (let newComputer = fromServerInfo http address serverInfo;
               newComputer = (if mdns then newComputer\<lparr>localAddress := address\<rparr>
                              else newComputer\<lparr>manualAddress := address\<rparr>)
           in case map_of (m_KnownHosts m) (constData (uuid newComputer)) of
                Some existingComputer \<Rightarrow>
                  (case update existingComputer newComputer of
                     Inl e \<Rightarrow> Inl e
                   | Inr (changed, existingComputer) \<Rightarrow>
                       (let m = m\<lparr>m_KnownHosts :=
                                   AList.update (constData (uuid newComputer)) existingComputer
                                     (m_KnownHosts m)\<rparr>
                        in if changed then Inr (True, handleComputerStateChanged existingComputer m)
                           else Inr (True, m)))
              | None \<Rightarrow>
                  (let m = m\<lparr>m_KnownHosts :=
                              insert_sorted (constData (uuid newComputer)) newComputer (m_KnownHosts m)\<rparr>
                   in case startPollingComputer newComputer m of
                        Inl e \<Rightarrow> Inl e
                      | Inr m \<Rightarrow> Inr (True, handleComputerStateChanged newComputer m))))"


text \<open>\<open>deleteHost\<close> interrupts the host's thread, if it has one, and waits for it;
  \<open>wait()\<close> returns once the thread has finished, so the assertion after it holds.
  Then the thread and the record leave their tables. \<open>stopPollingAsync\<close> discards the
  pending resolutions and the browser and, after asking each thread to stop, clears
  the thread table.\<close>

definition removeKey :: "'k \<Rightarrow> ('k, 'v) QMap \<Rightarrow> ('k, 'v) QMap" where
  "removeKey k m = filter (\<lambda>(k', v). k' \<noteq> k) m"

definition deleteHost :: "NvComputer \<Rightarrow> ComputerManager \<Rightarrow> ComputerManager" where
  "deleteHost computer m =
     m\<lparr>m_PollThreads := removeKey (constData (uuid computer)) (m_PollThreads m),
       m_KnownHosts := removeKey (constData (uuid computer)) (m_KnownHosts m)\<rparr>"

definition stopPollingAsync :: "ComputerManager \<Rightarrow> ComputerManager" where
  "stopPollingAsync m =
     (if \<not> m_Polling m then m
      else m\<lparr>m_Polling := False, m_PendingResolution := [], m_MdnsBrowser := None,
             m_PollThreads := []\<rparr>)"

text \<open>The constructor of the manager enters every record read from the settings under
  its \<open>uuid\<close>; the records read are a parameter here.\<close>

definition inflate :: "NvComputer list \<Rightarrow> Store \<Rightarrow> ComputerManager" where
  "inflate loaded st =
     \<lparr>m_Polling = False, m_MdnsBrowser = None,
      m_KnownHosts = fold (\<lambda>computer. insert_sorted (constData (uuid computer)) computer) loaded [],
      m_PollThreads = [], m_PendingResolution = [], savedSettings = st,
      computerStateChanged = []\<rparr>"

text \<open>The tables as the manager builds them: every record is stored under its own
  \<open>uuid\<close>, and a polling thread is registered only for a host of the table.\<close>

definition consistent :: "ComputerManager \<Rightarrow> bool" where
  "consistent m \<longleftrightarrow>
     (\<forall>(k, computer) \<in> set (m_KnownHosts m). constData (uuid computer) = k)
     \<and> set (keys (m_PollThreads m)) \<subseteq> set (keys (m_KnownHosts m))"

section \<open>Example records\<close>

text \<open>A host as it is read back from the persisted state (live fields at their
  defaults), a fresh observation of the same host whose query produced no app list and
  no MAC address, and a host with another identifier.\<close>

definition den_pc :: NvComputer where
  "den_pc = \<lparr>name = Some ''Den-PC'', uuid = Some ''X'',
     macAddress = Some [0xAA, 0xBB, 0xCC, 0xDD, 0xEE, 0xFF], serverCodecModeSupport = 1,
     localAddress = Some [], remoteAddress = Some [], manualAddress = Some ''192.0.2.10'',
     activeAddress = None, pairState = PS_UNKNOWN, state = CS_UNKNOWN, currentGameId = 0,
     gfeVersion = None, appVersion = None,
     appList = [\<lparr>app_name = Some ''Game A'', app_id = 1, hdrSupported = False\<rparr>]\<rparr>"

definition den_pc_observed :: NvComputer where
  "den_pc_observed = \<lparr>name = Some ''Den-PC'', uuid = Some ''X'',
     macAddress = None, serverCodecModeSupport = 1,
     localAddress = Some ''192.0.2.10'', remoteAddress = None, manualAddress = None,
     activeAddress = Some ''192.0.2.10'', pairState = PS_PAIRED, state = CS_ONLINE,
     currentGameId = 0, gfeVersion = Some ''3.13'', appVersion = Some ''7.1'',
     appList = []\<rparr>"

definition attic_pc :: NvComputer where
  "attic_pc = den_pc_observed\<lparr>name := Some ''Attic-PC'', uuid := Some ''Y''\<rparr>"

text \<open>The same host when its stored MAC address is an empty, non-null byte array.\<close>

definition den_pc_empty_mac :: NvComputer where
  "den_pc_empty_mac = den_pc\<lparr>macAddress := Some []\<rparr>"

text \<open>A network where every non-empty name resolves to one IPv4 address and every
  datagram is sent whole, and the same network with every \<open>writeDatagram\<close> failing.\<close>

definition lan :: Network where
  "lan = \<lparr>fromName = (\<lambda>n. if isEmpty n then []
                         else [\<lparr>protocol = IPv4Protocol, toString = constData n\<rparr>]),
          bind = (\<lambda>_. True),
          writeDatagram = (\<lambda>payload _ _. of_nat (length payload))\<rparr>"

definition unreachable_lan :: Network where
  "unreachable_lan = lan\<lparr>writeDatagram := (\<lambda>_ _ _. - 1)\<rparr>"

text \<open>The settings after the host table holding \<open>den_pc\<close> alone has been saved.\<close>

definition den_pc_saved :: Store where
  "den_pc_saved = saveHosts [(''X'', den_pc)] []"

text \<open>A manager with no host, a manager that is polling its one host, and a protocol
  client that reaches one server, at \<open>192.0.2.10\<close>.\<close>

definition no_hosts :: ComputerManager where
  "no_hosts = \<lparr>m_Polling = False, m_MdnsBrowser = None, m_KnownHosts = [], m_PollThreads = [],
     m_PendingResolution = [], savedSettings = [], computerStateChanged = []\<rparr>"

definition polling_den_pc :: ComputerManager where
  "polling_den_pc = no_hosts\<lparr>m_Polling := True,
     m_MdnsBrowser := Some (Browser ''_nvstream._tcp.local.''),
     m_KnownHosts := [(''X'', den_pc)],
     m_PollThreads := [(''X'', \<lparr>isRunning = True, isInterruptionRequested = False\<rparr>)]\<rparr>"

definition gamestream :: NvHTTP where
  "gamestream =
     \<lparr>getServerInfo = (\<lambda>address. if address = Some ''192.0.2.10'' then Some (Some ''<root/>'') else None),
      getXmlString = (\<lambda>serverInfo tag.
         if tag = ''hostname'' then Some ''Den-PC''
         else if tag = ''uniqueid'' then Some ''X''
         else if tag = ''mac'' then Some ''00:00:00:00:00:00''
         else if tag = ''PairStatus'' then Some ''1''
         else None),
      getCurrentGame = (\<lambda>_. 0),
      toInt = (\<lambda>_ _. 0)\<rparr>"

section \<open>Properties of \<open>update\<close>\<close>

lemma qneq_imp_neq: "qneq a b \<Longrightarrow> a \<noteq> b"
  by (auto simp: qneq_def qeq_def)

lemma qeq_refl: "qeq a a"
  by (simp add: qeq_def)

lemma ASSIGN_IF_CHANGED_pair:
  "ASSIGN_IF_CHANGED f u neq that (c, t) =
     (c \<or> neq (f t) (f that), if neq (f t) (f that) then u (\<lambda>_. f that) t else t)"
  by (simp add: ASSIGN_IF_CHANGED_def)

lemma ASSIGN_IF_CHANGED_AND_NONEMPTY_pair:
  "ASSIGN_IF_CHANGED_AND_NONEMPTY f u e neq that (c, t) =
     (c \<or> (\<not> e (f that) \<and> neq (f t) (f that)),
      if \<not> e (f that) \<and> neq (f t) (f that) then u (\<lambda>_. f that) t else t)"
  by (simp add: ASSIGN_IF_CHANGED_AND_NONEMPTY_def)

lemma if_record_update:
  "(if c then t\<lparr>name := v0\<rparr> else t) = t\<lparr>name := if c then v0 else name t\<rparr>"
  "(if c then t\<lparr>macAddress := v1\<rparr> else t) = t\<lparr>macAddress := if c then v1 else macAddress t\<rparr>"
  "(if c then t\<lparr>localAddress := v2\<rparr> else t) = t\<lparr>localAddress := if c then v2 else localAddress t\<rparr>"
  "(if c then t\<lparr>remoteAddress := v3\<rparr> else t) = t\<lparr>remoteAddress := if c then v3 else remoteAddress t\<rparr>"
  "(if c then t\<lparr>manualAddress := v4\<rparr> else t) = t\<lparr>manualAddress := if c then v4 else manualAddress t\<rparr>"
  "(if c then t\<lparr>pairState := v5\<rparr> else t) = t\<lparr>pairState := if c then v5 else pairState t\<rparr>"
  "(if c then t\<lparr>serverCodecModeSupport := v6\<rparr> else t) = t\<lparr>serverCodecModeSupport := if c then v6 else serverCodecModeSupport t\<rparr>"
  "(if c then t\<lparr>currentGameId := v7\<rparr> else t) = t\<lparr>currentGameId := if c then v7 else currentGameId t\<rparr>"
  "(if c then t\<lparr>activeAddress := v8\<rparr> else t) = t\<lparr>activeAddress := if c then v8 else activeAddress t\<rparr>"
  "(if c then t\<lparr>state := v9\<rparr> else t) = t\<lparr>state := if c then v9 else state t\<rparr>"
  "(if c then t\<lparr>gfeVersion := v10\<rparr> else t) = t\<lparr>gfeVersion := if c then v10 else gfeVersion t\<rparr>"
  "(if c then t\<lparr>appVersion := v11\<rparr> else t) = t\<lparr>appVersion := if c then v11 else appVersion t\<rparr>"
  "(if c then t\<lparr>appList := v12\<rparr> else t) = t\<lparr>appList := if c then v12 else appList t\<rparr>"
  by simp_all

text \<open>The merge in closed form: the flag is the disjunction of the thirteen tests, and
  every field is the value its policy selects. No test reads a field that an earlier
  assignment wrote, so the tests can all be stated on the record before the merge.\<close>

lemma update_closed_form:
  assumes "qeq (uuid e) (uuid ob)"
  shows "update e ob = Inr
    (qneq (name e) (name ob)
      \<or> (\<not> isEmpty (macAddress ob) \<and> qneq (macAddress e) (macAddress ob))
      \<or> (\<not> isEmpty (localAddress ob) \<and> qneq (localAddress e) (localAddress ob))
      \<or> (\<not> isEmpty (remoteAddress ob) \<and> qneq (remoteAddress e) (remoteAddress ob))
      \<or> (\<not> isEmpty (manualAddress ob) \<and> qneq (manualAddress e) (manualAddress ob))
      \<or> pairState e \<noteq> pairState ob
      \<or> serverCodecModeSupport e \<noteq> serverCodecModeSupport ob
      \<or> currentGameId e \<noteq> currentGameId ob
      \<or> qneq (activeAddress e) (activeAddress ob)
      \<or> state e \<noteq> state ob
      \<or> qneq (gfeVersion e) (gfeVersion ob)
      \<or> qneq (appVersion e) (appVersion ob)
      \<or> (appList ob \<noteq> [] \<and> appList e \<noteq> appList ob),
     e\<lparr>name := overwrite_if_different qneq (name e) (name ob),
       macAddress := overwrite_if_nonempty_and_different isEmpty qneq (macAddress e) (macAddress ob),
       localAddress := overwrite_if_nonempty_and_different isEmpty qneq (localAddress e) (localAddress ob),
       remoteAddress := overwrite_if_nonempty_and_different isEmpty qneq (remoteAddress e) (remoteAddress ob),
       manualAddress := overwrite_if_nonempty_and_different isEmpty qneq (manualAddress e) (manualAddress ob),
       pairState := overwrite_if_different (\<noteq>) (pairState e) (pairState ob),
       serverCodecModeSupport :=
         overwrite_if_different (\<noteq>) (serverCodecModeSupport e) (serverCodecModeSupport ob),
       currentGameId := overwrite_if_different (\<noteq>) (currentGameId e) (currentGameId ob),
       activeAddress := overwrite_if_different qneq (activeAddress e) (activeAddress ob),
       state := overwrite_if_different (\<noteq>) (state e) (state ob),
       gfeVersion := overwrite_if_different qneq (gfeVersion e) (gfeVersion ob),
       appVersion := overwrite_if_different qneq (appVersion e) (appVersion ob),
       appList := overwrite_if_nonempty_and_different (\<lambda>l. l = []) (\<noteq>) (appList e) (appList ob)\<rparr>)"
  using assms
  by (simp add: update_def Let_def ASSIGN_IF_CHANGED_pair ASSIGN_IF_CHANGED_AND_NONEMPTY_pair
      overwrite_if_different_def overwrite_if_nonempty_and_different_def if_record_update) blast

lemma overwrite_if_different_kept:
  assumes "\<And>a b. differs a b \<Longrightarrow> a \<noteq> b"
  shows "overwrite_if_different differs old new = old \<longleftrightarrow> \<not> differs old new"
  using assms by (auto simp: overwrite_if_different_def)

lemma overwrite_if_nonempty_and_different_kept:
  assumes "\<And>a b. differs a b \<Longrightarrow> a \<noteq> b"
  shows "overwrite_if_nonempty_and_different is_empty differs old new = old
           \<longleftrightarrow> \<not> (\<not> is_empty new \<and> differs old new)"
  using assms by (auto simp: overwrite_if_nonempty_and_different_def)


text \<open>
  Claim C1. For two records with equal \<open>uuid\<close>, \<open>update\<close> returns normally; \<open>name\<close>,
  \<open>pairState\<close>, \<open>serverCodecModeSupport\<close>, \<open>currentGameId\<close>, \<open>activeAddress\<close>, \<open>state\<close>,
  \<open>gfeVersion\<close> and \<open>appVersion\<close> take the observed value whenever it differs (also
  when it is empty); \<open>macAddress\<close>, \<open>localAddress\<close>, \<open>remoteAddress\<close>, \<open>manualAddress\<close>
  and \<open>appList\<close> take it only when it is non-empty and differs; and the returned flag
  is true exactly when one of these fields changed. "Differs" is the \<open>!=\<close> of the
  field's type, which on \<open>QString\<close> and \<open>QByteArray\<close> does not tell null from empty.
\<close>

theorem update_field_policy:
  assumes "qeq (uuid existing) (uuid observed)"
  shows "\<exists>changed merged. update existing observed = Inr (changed, merged)
    \<and> uuid merged = uuid existing
    \<and> name merged = overwrite_if_different qneq (name existing) (name observed)
    \<and> pairState merged = overwrite_if_different (\<noteq>) (pairState existing) (pairState observed)
    \<and> serverCodecModeSupport merged =
        overwrite_if_different (\<noteq>) (serverCodecModeSupport existing) (serverCodecModeSupport observed)
    \<and> currentGameId merged =
        overwrite_if_different (\<noteq>) (currentGameId existing) (currentGameId observed)
    \<and> activeAddress merged =
        overwrite_if_different qneq (activeAddress existing) (activeAddress observed)
    \<and> state merged = overwrite_if_different (\<noteq>) (state existing) (state observed)
    \<and> gfeVersion merged = overwrite_if_different qneq (gfeVersion existing) (gfeVersion observed)
    \<and> appVersion merged = overwrite_if_different qneq (appVersion existing) (appVersion observed)
    \<and> macAddress merged =
        overwrite_if_nonempty_and_different isEmpty qneq (macAddress existing) (macAddress observed)
    \<and> localAddress merged =
        overwrite_if_nonempty_and_different isEmpty qneq (localAddress existing) (localAddress observed)
    \<and> remoteAddress merged =
        overwrite_if_nonempty_and_different isEmpty qneq (remoteAddress existing) (remoteAddress observed)
    \<and> manualAddress merged =
        overwrite_if_nonempty_and_different isEmpty qneq (manualAddress existing) (manualAddress observed)
    \<and> appList merged =
        overwrite_if_nonempty_and_different (\<lambda>l. l = []) (\<noteq>) (appList existing) (appList observed)
    \<and> (changed \<longleftrightarrow>
          name merged \<noteq> name existing \<or> pairState merged \<noteq> pairState existing
        \<or> serverCodecModeSupport merged \<noteq> serverCodecModeSupport existing
        \<or> currentGameId merged \<noteq> currentGameId existing
        \<or> activeAddress merged \<noteq> activeAddress existing \<or> state merged \<noteq> state existing
        \<or> gfeVersion merged \<noteq> gfeVersion existing \<or> appVersion merged \<noteq> appVersion existing
        \<or> macAddress merged \<noteq> macAddress existing \<or> localAddress merged \<noteq> localAddress existing
        \<or> remoteAddress merged \<noteq> remoteAddress existing
        \<or> manualAddress merged \<noteq> manualAddress existing \<or> appList merged \<noteq> appList existing)"
proof -
  note chg = overwrite_if_different_kept [of qneq, OF qneq_imp_neq]
    overwrite_if_different_kept [of "(\<noteq>)"]
    overwrite_if_nonempty_and_different_kept [of qneq, OF qneq_imp_neq]
    overwrite_if_nonempty_and_different_kept [of "(\<noteq>)"]
  show ?thesis
    unfolding update_closed_form [OF assms]
    apply (intro exI conjI)
                   apply (rule refl)
                  apply (simp_all add: chg)
    apply blast
    done
qed

theorem update_field_policy_witness:
  "qeq (uuid den_pc) (uuid den_pc_observed) \<and>
   (\<exists>merged. update den_pc den_pc_observed = Inr (True, merged)
      \<and> name merged = Some ''Den-PC'' \<and> localAddress merged = Some ''192.0.2.10''
      \<and> manualAddress merged = Some ''192.0.2.10'' \<and> state merged = CS_ONLINE
      \<and> macAddress merged = macAddress den_pc \<and> appList merged = appList den_pc)"
proof -
  have same: "qeq (uuid den_pc) (uuid den_pc_observed)"
    by (simp add: qeq_def den_pc_def den_pc_observed_def)
  from update_field_policy [OF same] obtain changed merged where
    "update den_pc den_pc_observed = Inr (changed, merged)"
    "name merged = overwrite_if_different qneq (name den_pc) (name den_pc_observed)"
    "state merged = overwrite_if_different (\<noteq>) (state den_pc) (state den_pc_observed)"
    "macAddress merged = overwrite_if_nonempty_and_different isEmpty qneq
       (macAddress den_pc) (macAddress den_pc_observed)"
    "localAddress merged = overwrite_if_nonempty_and_different isEmpty qneq
       (localAddress den_pc) (localAddress den_pc_observed)"
    "manualAddress merged = overwrite_if_nonempty_and_different isEmpty qneq
       (manualAddress den_pc) (manualAddress den_pc_observed)"
    "appList merged = overwrite_if_nonempty_and_different (\<lambda>l. l = []) (\<noteq>)
       (appList den_pc) (appList den_pc_observed)"
    "changed \<longleftrightarrow>
          name merged \<noteq> name den_pc \<or> pairState merged \<noteq> pairState den_pc
        \<or> serverCodecModeSupport merged \<noteq> serverCodecModeSupport den_pc
        \<or> currentGameId merged \<noteq> currentGameId den_pc
        \<or> activeAddress merged \<noteq> activeAddress den_pc \<or> state merged \<noteq> state den_pc
        \<or> gfeVersion merged \<noteq> gfeVersion den_pc \<or> appVersion merged \<noteq> appVersion den_pc
        \<or> macAddress merged \<noteq> macAddress den_pc \<or> localAddress merged \<noteq> localAddress den_pc
        \<or> remoteAddress merged \<noteq> remoteAddress den_pc
        \<or> manualAddress merged \<noteq> manualAddress den_pc \<or> appList merged \<noteq> appList den_pc"
    by blast
  then have "update den_pc den_pc_observed = Inr (True, merged)
      \<and> name merged = Some ''Den-PC'' \<and> localAddress merged = Some ''192.0.2.10''
      \<and> manualAddress merged = Some ''192.0.2.10'' \<and> state merged = CS_ONLINE
      \<and> macAddress merged = macAddress den_pc \<and> appList merged = appList den_pc"
    by (simp add: den_pc_def den_pc_observed_def overwrite_if_different_def
        overwrite_if_nonempty_and_different_def qneq_def qeq_def isEmpty_def constData_def)
  with same show ?thesis by blast
qed

text \<open>
  Claim C4. When the \<open>uuid\<close>s of the two records differ, \<open>update\<close> fails its assertion
  and merges nothing: the result is the abort, not a merged record.
\<close>

theorem update_mismatched_uuid_aborts:
  assumes "\<not> qeq (uuid existing) (uuid observed)"
  shows "update existing observed = Inl AssertionFailed"
  using assms by (simp add: update_def)

theorem update_mismatched_uuid_aborts_witness:
  "\<not> qeq (uuid den_pc) (uuid attic_pc) \<and> update den_pc attic_pc = Inl AssertionFailed"
proof -
  have other: "\<not> qeq (uuid den_pc) (uuid attic_pc)"
    by (simp add: qeq_def constData_def den_pc_def attic_pc_def)
  with update_mismatched_uuid_aborts [OF other] show ?thesis by simp
qed

text \<open>
  Claim C8. Merging a record with a field-for-field copy of itself reports no change
  and returns the record as it was.
\<close>

theorem update_self_idempotent: "update h h = Inr (False, h)"
  by (simp add: update_closed_form [OF qeq_refl] qneq_def qeq_refl
      overwrite_if_different_def overwrite_if_nonempty_and_different_def)

theorem update_self_idempotent_witness: "update den_pc den_pc = Inr (False, den_pc)"
  by (rule update_self_idempotent)

section \<open>Properties of \<open>uniqueAddresses\<close>\<close>

lemma removeAt_facts:
  assumes "j < length xs"
  shows "take j (removeAt j xs) = take j xs" "drop j (removeAt j xs) = drop (Suc j) xs"
    "i < j \<Longrightarrow> removeAt j xs ! i = xs ! i" "length (removeAt j xs) = length xs - 1"
  using assms by (auto simp: removeAt_def nth_append min_def)

lemma pruneLater_done: "\<not> j < length xs \<Longrightarrow> pruneLater i j xs = xs"
  by (subst pruneLater.simps) simp

lemma pruneLoop_done: "\<not> i < length xs \<Longrightarrow> pruneLoop i xs = xs"
  by (subst pruneLoop.simps) simp

lemma pruneLater_filter:
  assumes "i < j" "j \<le> length xs"
  shows "pruneLater i j xs = take j xs @ filter (\<lambda>y. \<not> qeq (xs ! i) y) (drop j xs)"
  using assms
proof (induction i j xs rule: pruneLater.induct)
  case (1 i j xs)
  show ?case
  proof (cases "j < length xs")
    case False
    with "1.prems" show ?thesis by (simp add: pruneLater_done)
  next
    case inside: True
    then have split: "drop j xs = xs ! j # drop (Suc j) xs"
      by (simp add: Cons_nth_drop_Suc)
    show ?thesis
    proof (cases "qeq (xs ! i) (xs ! j)")
      case True
      from inside have "j \<le> length (removeAt j xs)"
        by (simp add: removeAt_facts)
      with "1.IH"(1) inside True "1.prems"(1)
      have "pruneLater i j (removeAt j xs) =
          take j (removeAt j xs) @ filter (\<lambda>y. \<not> qeq (removeAt j xs ! i) y) (drop j (removeAt j xs))"
        by simp
      with inside True "1.prems"(1) show ?thesis
        by (simp add: pruneLater.simps [of i j xs] removeAt_facts split)
    next
      case False
      with "1.IH"(2) inside "1.prems"(1)
      have "pruneLater i (Suc j) xs =
          take (Suc j) xs @ filter (\<lambda>y. \<not> qeq (xs ! i) y) (drop (Suc j) xs)"
        by simp
      with inside False show ?thesis
        by (simp add: pruneLater.simps [of i j xs] split take_Suc_conv_app_nth)
    qed
  qed
qed

lemma isNull_imp_isEmpty: "isNull q \<Longrightarrow> isEmpty q"
  by (simp add: isNull_def isEmpty_def constData_def)

lemma pruneLoop_keep_first:
  assumes "i \<le> length xs"
  shows "pruneLoop i xs = take i xs @ keep_first (filter (\<lambda>a. \<not> isEmpty a) (drop i xs))"
  using assms
proof (induction i xs rule: pruneLoop.induct)
  case (1 i xs)
  show ?case
  proof (cases "i < length xs")
    case False
    with "1.prems" show ?thesis by (simp add: pruneLoop_done)
  next
    case inside: True
    then have split: "drop i xs = xs ! i # drop (Suc i) xs"
      by (simp add: Cons_nth_drop_Suc)
    show ?thesis
    proof (cases "isEmpty (xs ! i)")
      case True
      from inside have "i \<le> length (removeAt i xs)"
        by (simp add: removeAt_facts)
      with "1.IH"(1) inside True
      have "pruneLoop i (removeAt i xs) = take i (removeAt i xs)
          @ keep_first (filter (\<lambda>a. \<not> isEmpty a) (drop i (removeAt i xs)))"
        by simp
      with inside True show ?thesis
        by (simp add: pruneLoop.simps [of i xs] removeAt_facts split)
    next
      case False
      then have nonnull: "\<not> isNull (xs ! i)"
        using isNull_imp_isEmpty by blast
      let ?ys = "pruneLater i (Suc i) xs"
      have ys: "?ys = take (Suc i) xs @ filter (\<lambda>y. \<not> qeq (xs ! i) y) (drop (Suc i) xs)"
        using inside by (simp add: pruneLater_filter)
      then have len: "Suc i \<le> length ?ys"
        using inside by simp
      with "1.IH"(2) inside False nonnull
      have "pruneLoop (Suc i) ?ys =
          take (Suc i) ?ys @ keep_first (filter (\<lambda>a. \<not> isEmpty a) (drop (Suc i) ?ys))"
        by simp
      moreover have "take (Suc i) ?ys = take i xs @ [xs ! i]"
        using inside by (simp add: ys take_Suc_conv_app_nth)
      moreover have "drop (Suc i) ?ys = filter (\<lambda>y. \<not> qeq (xs ! i) y) (drop (Suc i) xs)"
        using inside by (simp add: ys)
      moreover have "filter (\<lambda>a. \<not> isEmpty a) (filter (\<lambda>y. \<not> qeq (xs ! i) y) (drop (Suc i) xs)) =
          filter (\<lambda>y. \<not> qeq (xs ! i) y) (filter (\<lambda>a. \<not> isEmpty a) (drop (Suc i) xs))"
        by (simp add: conj_commute)
      ultimately show ?thesis
        using inside False nonnull by (simp add: pruneLoop.simps [of i xs] split)
    qed
  qed
qed


lemma keep_first_subset: "set (keep_first xs) \<subseteq> set xs"
  by (induction xs rule: keep_first.induct) auto

lemma keep_first_distinct: "distinct (keep_first xs)"
proof (induction xs rule: keep_first.induct)
  case 1
  show ?case by simp
next
  case (2 x xs)
  have "x \<notin> set (keep_first (filter (\<lambda>y. \<not> qeq x y) xs))"
    using keep_first_subset [of "filter (\<lambda>y. \<not> qeq x y) xs"] by (auto simp: qeq_refl)
  with 2 show ?case by simp
qed

lemma keep_first_Nil: "keep_first xs = [] \<longleftrightarrow> xs = []"
  by (cases xs) simp_all

text \<open>
  Claim C5. \<open>uniqueAddresses\<close> returns the list \<open>activeAddress\<close>, \<open>localAddress\<close>,
  \<open>remoteAddress\<close>, \<open>manualAddress\<close> with the empty entries removed and every later
  duplicate of an earlier value removed. When one of the four fields is non-empty the
  result has at least one element; when all four are empty the function fails its
  assertion instead of returning an empty list.
\<close>

theorem uniqueAddresses_correct:
  "uniqueAddresses c =
     (if isEmpty (activeAddress c) \<and> isEmpty (localAddress c)
         \<and> isEmpty (remoteAddress c) \<and> isEmpty (manualAddress c)
      then Inl AssertionFailed
      else Inr (unique_addresses_spec c))
   \<and> (\<forall>xs. uniqueAddresses c = Inr xs \<longrightarrow> xs \<noteq> [])"
proof -
  let ?addrs = "[activeAddress c, localAddress c, remoteAddress c, manualAddress c]"
  have loop: "pruneLoop 0 ?addrs = unique_addresses_spec c"
    using pruneLoop_keep_first [of 0 ?addrs] by (simp add: unique_addresses_spec_def)
  have "unique_addresses_spec c = [] \<longleftrightarrow>
      isEmpty (activeAddress c) \<and> isEmpty (localAddress c)
         \<and> isEmpty (remoteAddress c) \<and> isEmpty (manualAddress c)"
    unfolding unique_addresses_spec_def keep_first_Nil by (simp add: filter_empty_conv)
  with loop show ?thesis
    by (simp add: uniqueAddresses_def Let_def)
qed

theorem uniqueAddresses_correct_witness:
  "uniqueAddresses den_pc_observed = Inr [Some ''192.0.2.10''] \<and>
   uniqueAddresses (den_pc_observed\<lparr>activeAddress := None, localAddress := Some []\<rparr>) = Inl AssertionFailed"
  using uniqueAddresses_correct [of den_pc_observed]
    uniqueAddresses_correct [of "den_pc_observed\<lparr>activeAddress := None, localAddress := Some []\<rparr>"]
  by (simp add: unique_addresses_spec_def den_pc_observed_def isEmpty_def constData_def qeq_def)

section \<open>Properties of \<open>wake\<close>\<close>

lemma fromHex_header: "fromHex ''FFFFFFFFFFFF'' = replicate 6 0xFF"
  by code_simp

lemma appendTimes_concat: "appendTimes n payload mac = payload @ concat (replicate n mac)"
proof (induction n arbitrary: payload)
  case 0
  show ?case by simp
next
  case (Suc n)
  have "concat (replicate (Suc n) mac) = mac @ concat (replicate n mac)"
    by simp
  with Suc show ?case by simp
qed

lemma wolPayload_magic: "wolPayload m = magic_packet (constData m)"
  by (simp only: wolPayload_def appendTimes_concat fromHex_header magic_packet_def)

lemma length_magic_packet: "length (magic_packet mac) = 6 + 16 * length mac"
  by (simp add: magic_packet_def length_concat sum_list_replicate)

lemma sendToPorts_payload:
  assumes "\<forall>d \<in> set (snd s). datagram d = payload"
  shows "\<forall>d \<in> set (snd (sendToPorts net payload address ports s)). datagram d = payload"
  using assms
  by (induction net payload address ports s rule: sendToPorts.induct) (simp_all add: Let_def)

lemma sendToAddresses_payload:
  assumes "\<forall>d \<in> set (snd s). datagram d = payload"
  shows "\<forall>d \<in> set (snd (sendToAddresses net payload addresses s)). datagram d = payload"
  using assms
proof (induction addresses arbitrary: s)
  case Nil
  then show ?case by simp
next
  case (Cons address addresses)
  show ?case
    using Cons.prems sendToPorts_payload [of s payload net address WOL_PORTS]
    by (auto intro!: Cons.IH)
qed

lemma sendToNames_payload:
  assumes "\<forall>d \<in> set (snd s). datagram d = payload"
  shows "\<forall>d \<in> set (snd (sendToNames net payload names s)). datagram d = payload"
  using assms
proof (induction names arbitrary: s)
  case Nil
  then show ?case by simp
next
  case (Cons n names)
  show ?case
    using sendToAddresses_payload [OF Cons.prems, of net "fromName net n"]
    by (auto intro!: Cons.IH)
qed

text \<open>
  Claim C7. For a record that is not online and whose \<open>macAddress\<close> holds six bytes,
  the payload built by \<open>wake\<close> is 102 bytes long: six bytes \<open>0xFF\<close> followed by the
  six-byte address sixteen times. The size assertion holds, so \<open>wake\<close> goes on to the
  address list, and every datagram it hands to the socket carries this payload.
\<close>

theorem wake_payload:
  assumes "state c \<noteq> CS_ONLINE" and "macAddress c = Some mac" and "length mac = 6"
  shows "wolPayload (macAddress c) = replicate 6 0xFF @ concat (replicate 16 mac)
    \<and> length (wolPayload (macAddress c)) = 102
    \<and> fst (wake net c) =
        (case uniqueAddresses c of Inl e \<Rightarrow> Inl e
         | Inr addressList \<Rightarrow>
             Inr (fst (sendToNames net (replicate 6 0xFF @ concat (replicate 16 mac))
                         (addressList @ [Some ''255.255.255.255'']) (False, []))))
    \<and> (\<forall>d \<in> set (snd (wake net c)).
          datagram d = replicate 6 0xFF @ concat (replicate 16 mac))"
proof -
  have payload: "wolPayload (macAddress c) = magic_packet mac"
    using assms(2) by (simp add: wolPayload_magic constData_def)
  have len: "length (magic_packet mac) = 102"
    using assms(3) by (simp add: length_magic_packet)
  have guard: "\<not> isNull (macAddress c)"
    using assms(2) by (simp add: isNull_def)
  have sent: "\<forall>d \<in> set (snd (sendToNames net (magic_packet mac) names (False, []))).
      datagram d = magic_packet mac" for names
    by (rule sendToNames_payload) simp
  have res: "fst (wake net c) =
        (case uniqueAddresses c of Inl e \<Rightarrow> Inl e
         | Inr addressList \<Rightarrow>
             Inr (fst (sendToNames net (magic_packet mac)
                         (addressList @ [Some ''255.255.255.255'']) (False, []))))"
    using assms(1) guard
    by (simp add: wake_def payload len split: sum.splits prod.splits)
  have log: "\<forall>d \<in> set (snd (wake net c)). datagram d = magic_packet mac"
  proof (cases "uniqueAddresses c")
    case (Inl e)
    with assms(1) guard show ?thesis by (simp add: wake_def payload len)
  next
    case (Inr addressList)
    with assms(1) guard sent [of "addressList @ [Some ''255.255.255.255'']"] show ?thesis
      by (simp add: wake_def payload len split: prod.splits)
  qed
  from payload len res log show ?thesis
    unfolding magic_packet_def by simp
qed

theorem wake_payload_witness:
  "state den_pc \<noteq> CS_ONLINE
   \<and> macAddress den_pc = Some [0xAA, 0xBB, 0xCC, 0xDD, 0xEE, 0xFF]
   \<and> length [0xAA, 0xBB, 0xCC, 0xDD, 0xEE, 0xFF :: 8 word] = 6
   \<and> wolPayload (macAddress den_pc) =
       replicate 6 0xFF @ concat (replicate 16 [0xAA, 0xBB, 0xCC, 0xDD, 0xEE, 0xFF])
   \<and> length (wolPayload (macAddress den_pc)) = 102"
proof -
  have offline: "state den_pc \<noteq> CS_ONLINE"
    and mac: "macAddress den_pc = Some [0xAA, 0xBB, 0xCC, 0xDD, 0xEE, 0xFF]"
    by (simp_all add: den_pc_def)
  have six: "length [0xAA, 0xBB, 0xCC, 0xDD, 0xEE, 0xFF :: 8 word] = 6"
    by simp
  from wake_payload [OF offline mac six, of lan] offline mac six show ?thesis
    by blast
qed

text \<open>A null \<open>macAddress\<close> is stopped by the guard: \<open>wake\<close> returns false and sends
  nothing.\<close>

lemma wake_null_mac:
  assumes "state c \<noteq> CS_ONLINE" and "isNull (macAddress c)"
  shows "wake net c = (Inr False, [])"
  using assms by (simp add: wake_def)

lemma sendToPorts_tally: "tally s \<Longrightarrow> tally (sendToPorts net payload address ports s)"
proof (induction net payload address ports s rule: sendToPorts.induct)
  case (1 net payload address s)
  then show ?case by simp
next
  case (2 net payload address p ports success sent)
  show ?case
    unfolding sendToPorts.simps Let_def
    by (rule "2.IH" [OF refl refl]) (use "2.prems" in \<open>auto simp: tally_def\<close>)
qed

lemma sendToAddresses_tally: "tally s \<Longrightarrow> tally (sendToAddresses net payload addresses s)"
  by (induction addresses arbitrary: s) (simp_all add: sendToPorts_tally)

lemma sendToNames_tally: "tally s \<Longrightarrow> tally (sendToNames net payload names s)"
  by (induction names arbitrary: s) (simp_all add: sendToAddresses_tally)

text \<open>What the flag returned by \<open>wake\<close> says: some \<open>writeDatagram\<close> returned a value
  other than \<open>0\<close>.\<close>

lemma wake_success_iff_nonzero_result:
  assumes "state c \<noteq> CS_ONLINE" and "wake net c = (Inr success, sent)"
  shows "success \<longleftrightarrow> (\<exists>d \<in> set sent. bytesSent d \<noteq> 0)"
proof (cases "isNull (macAddress c) \<or> length (wolPayload (macAddress c)) \<noteq> 102")
  case True
  with assms show ?thesis by (auto simp: wake_def split: if_splits)
next
  case False
  with assms obtain addressList where
    run: "sendToNames net (wolPayload (macAddress c))
            (addressList @ [Some ''255.255.255.255'']) (False, []) = (success, sent)"
    by (auto simp: wake_def split: sum.splits prod.splits)
  have "tally (sendToNames net (wolPayload (macAddress c))
            (addressList @ [Some ''255.255.255.255'']) (False, []))"
    by (rule sendToNames_tally) (simp add: tally_def)
  then show ?thesis by (simp add: run tally_def)
qed

text \<open>
  Claim C9, at a record that is not online and has no MAC address, stored as an empty
  but non-null byte array. The guard of \<open>wake\<close> tests \<open>isNull()\<close> only, so the record
  passes it; the payload is the six header bytes alone and the size assertion fails.
  Nothing is sent, but \<open>wake\<close> does not return false.
\<close>

theorem wake_empty_mac_passes_guard:
  "state den_pc_empty_mac \<noteq> CS_ONLINE \<and> isEmpty (macAddress den_pc_empty_mac)
   \<and> wolPayload (macAddress den_pc_empty_mac) = replicate 6 0xFF
   \<and> wake lan den_pc_empty_mac = (Inl AssertionFailed, [])"
  by (simp add: wake_def den_pc_empty_mac_def den_pc_def isNull_def isEmpty_def
      wolPayload_magic magic_packet_def constData_def)

text \<open>
  Claim C2, at a record that is not online and has a six-byte MAC address, on a network
  where every call of \<open>writeDatagram\<close> fails. Ten datagrams are attempted (two target
  addresses, five ports each), every one returns \<open>-1\<close>, and \<open>wake\<close> returns true:
  \<open>-1\<close> is not \<open>0\<close>, so the \<open>if\<close> around \<open>writeDatagram\<close> takes the failure for
  a success.
\<close>

theorem wake_true_when_every_send_fails:
  "state den_pc \<noteq> CS_ONLINE \<and> length (constData (macAddress den_pc)) = 6
   \<and> fst (wake unreachable_lan den_pc) = Inr True
   \<and> map bytesSent (snd (wake unreachable_lan den_pc)) = replicate 10 (- 1)
   \<and> map port (snd (wake unreachable_lan den_pc)) =
       [7, 9, 47998, 47999, 48000, 7, 9, 47998, 47999, 48000]"
  by code_simp

section \<open>Properties of the persistence\<close>

lemma setValue_other:
  assumes "k \<noteq> actualKey s key"
  shows "value_of (store (setValue key v s)) k = value_of (store s) k"
  using assms by (simp add: setValue_def value_of_def update_conv')

lemma setValue_groupStack: "groupStack (setValue key v s) = groupStack s"
  by (simp add: setValue_def)

lemma actualKey_setValue: "actualKey (setValue key v s) key' = actualKey s key'"
  by (simp add: actualKey_def groupPrefix_def setValue_groupStack)

lemma under_apps_not_field:
  assumes "isUnder (actualKey s SER_APPLIST) k" and "key \<noteq> SER_APPLIST"
  shows "k \<noteq> actualKey s key"
proof
  assume "k = actualKey s key"
  with assms(1) have "actualKey s key = actualKey s SER_APPLIST"
    by (simp add: isUnder_def actualKey_def)
  with assms(2) show False
    by (simp add: actualKey_def)
qed

text \<open>\<open>serialize\<close> alone, for a record with an empty \<open>appList\<close>, changes no key under
  the record's \<open>apps\<close> array.\<close>

lemma serialize_keeps_persisted_apps:
  assumes "appList c = []" and "isUnder (actualKey settings SER_APPLIST) k"
  shows "value_of (store (serialize c settings)) k = value_of (store settings) k"
  using assms
  by (simp add: serialize_def Let_def setValue_other under_apps_not_field actualKey_setValue)

text \<open>
  Claim C3, at the host \<open>den_pc\<close> whose persisted entry holds the app list
  \<open>[Game A]\<close>, when its in-memory \<open>appList\<close> is empty. \<open>serialize\<close> on the entry
  \<open>hosts/1\<close> leaves the persisted list in place. \<open>saveHosts\<close> does not: it removes
  every key under \<open>hosts\<close> before it calls \<open>serialize\<close>, which then writes no app
  list, so the persisted list is gone from the store.
\<close>

theorem saveHosts_drops_persisted_apps:
  "value_of den_pc_saved [Key SER_HOSTS, Index 1, Key SER_APPLIST, Key ''size''] = Some (VInt 1)
   \<and> value_of den_pc_saved [Key SER_HOSTS, Index 1, Key SER_APPLIST, Index 1, Key SER_APPNAME]
       = Some (VString (Some ''Game A''))
   \<and> value_of (store (serialize (den_pc\<lparr>appList := []\<rparr>)
         \<lparr>store = den_pc_saved, groupStack = [\<lparr>str = SER_HOSTS, num = 1, maxNum = 1\<rparr>]\<rparr>))
         [Key SER_HOSTS, Index 1, Key SER_APPLIST, Index 1, Key SER_APPNAME]
       = Some (VString (Some ''Game A''))
   \<and> value_of (saveHosts [(''X'', den_pc\<lparr>appList := []\<rparr>)] den_pc_saved)
         [Key SER_HOSTS, Index 1, Key SER_APPLIST, Key ''size''] = None
   \<and> value_of (saveHosts [(''X'', den_pc\<lparr>appList := []\<rparr>)] den_pc_saved)
         [Key SER_HOSTS, Index 1, Key SER_APPLIST, Index 1, Key SER_APPNAME] = None
   \<and> value_of (saveHosts [(''X'', den_pc\<lparr>appList := []\<rparr>)] den_pc_saved)
         [Key SER_HOSTS, Index 1, Key SER_NAME] = Some (VString (Some ''Den-PC''))"
  by code_simp

section \<open>Properties of the host manager\<close>

lemma set_insert_sorted: "set (insert_sorted k v m) \<subseteq> insert (k, v) (set m)"
  by (induction k v m rule: insert_sorted.induct) (auto split: if_splits)

lemma keys_insert_sorted: "set (keys (insert_sorted k v m)) = insert k (set (keys m))"
  by (induction k v m rule: insert_sorted.induct) (auto simp: keys_def split: if_splits)

lemma set_alist_update: "set (AList.update k v al) \<subseteq> insert (k, v) (set al)"
  by (induction al) auto

lemma update_keeps_uuid:
  assumes "update e ob = Inr (changed, e')"
  shows "uuid e' = uuid e"
proof (cases "qeq (uuid e) (uuid ob)")
  case True
  from assms show ?thesis
    unfolding update_closed_form [OF True] by auto
next
  case False
  with assms show ?thesis by (simp add: update_def)
qed

lemma handleComputerStateChanged_consistent:
  "consistent (handleComputerStateChanged computer m) = consistent m"
  by (simp add: handleComputerStateChanged_def consistent_def Let_def)

lemma addNewHost_query_fails:
  assumes "getServerInfo http address = None"
  shows "addNewHost http address mdns m = Inr (False, m)"
  using assms by (simp add: addNewHost_def)

lemma addNewHost_query_succeeds:
  assumes "getServerInfo http address = Some serverInfo" and "consistent m"
  shows "\<exists>m'. addNewHost http address mdns m = Inr (True, m') \<and> consistent m'"
proof -
  define newComputer where "newComputer =
    (if mdns then (fromServerInfo http address serverInfo)\<lparr>localAddress := address\<rparr>
     else (fromServerInfo http address serverInfo)\<lparr>manualAddress := address\<rparr>)"
  define key where "key = constData (uuid newComputer)"
  show ?thesis
  proof (cases "map_of (m_KnownHosts m) key")
    case None
    then have "key \<notin> set (keys (m_KnownHosts m))"
      by (simp add: map_of_eq_None_iff keys_def)
    with assms(2) have nothread: "map_of (m_PollThreads m) key = None"
      by (auto simp: consistent_def map_of_eq_None_iff keys_def)
    let ?m1 = "m\<lparr>m_KnownHosts := insert_sorted key newComputer (m_KnownHosts m)\<rparr>"
    have c1: "consistent ?m1"
      using assms(2) set_insert_sorted [of key newComputer "m_KnownHosts m"]
      by (auto simp: consistent_def keys_insert_sorted key_def)
    obtain m2 where m2: "startPollingComputer newComputer ?m1 = Inr m2" and c2: "consistent m2"
    proof (cases "m_Polling m")
      case False
      then have "startPollingComputer newComputer ?m1 = Inr ?m1"
        by (simp add: startPollingComputer_def)
      with c1 that show ?thesis by blast
    next
      case True
      let ?m2 = "?m1\<lparr>m_PollThreads := insert_sorted key
          \<lparr>isRunning = True, isInterruptionRequested = False\<rparr> (m_PollThreads m)\<rparr>"
      from True nothread have "startPollingComputer newComputer ?m1 = Inr ?m2"
        by (simp add: startPollingComputer_def key_def)
      moreover have "consistent ?m2"
        using c1 by (auto simp: consistent_def keys_insert_sorted)
      ultimately show ?thesis using that by blast
    qed
    have "addNewHost http address mdns m = Inr (True, handleComputerStateChanged newComputer m2)"
      using assms(1) None m2
      by (simp add: addNewHost_def Let_def newComputer_def [symmetric] key_def [symmetric])
    with c2 show ?thesis
      by (simp add: handleComputerStateChanged_consistent)
  next
    case (Some existingComputer)
    then have mem: "(key, existingComputer) \<in> set (m_KnownHosts m)"
      by (rule map_of_SomeD)
    with assms(2) have same: "constData (uuid existingComputer) = key"
      by (auto simp: consistent_def)
    then have "qeq (uuid existingComputer) (uuid newComputer)"
      by (simp add: qeq_def key_def)
    from update_closed_form [OF this] obtain changed merged where
      upd: "update existingComputer newComputer = Inr (changed, merged)"
      by blast
    have "uuid merged = uuid existingComputer"
      using upd by (rule update_keeps_uuid)
    with same have merged: "constData (uuid merged) = key"
      by simp
    let ?m1 = "m\<lparr>m_KnownHosts := AList.update key merged (m_KnownHosts m)\<rparr>"
    have "set (AList.update key merged (m_KnownHosts m)) \<subseteq> insert (key, merged) (set (m_KnownHosts m))"
      by (rule set_alist_update)
    moreover have "set (keys (AList.update key merged (m_KnownHosts m))) = set (keys (m_KnownHosts m))"
      using mem by (auto simp: keys_def dom_update rev_image_eqI)
    ultimately have c1: "consistent ?m1"
      using assms(2) merged by (auto simp: consistent_def)
    have "addNewHost http address mdns m =
        Inr (True, if changed then handleComputerStateChanged merged ?m1 else ?m1)"
      using assms(1) Some upd
      by (simp add: addNewHost_def Let_def newComputer_def [symmetric] key_def [symmetric])
    with c1 show ?thesis
      by (simp add: handleComputerStateChanged_consistent)
  qed
qed

text \<open>Consistency of the tables holds for the manager as constructed and is kept by
  every operation of the manager.\<close>

lemma keyed_insert_sorted:
  assumes "\<forall>(k, c) \<in> set m. constData (uuid c) = k"
  shows "\<forall>(k, c) \<in> set (insert_sorted (constData (uuid computer)) computer m). constData (uuid c) = k"
  using assms set_insert_sorted [of "constData (uuid computer)" computer m] by auto

lemma keyed_fold:
  assumes "\<forall>(k, c) \<in> set m. constData (uuid c) = k"
  shows "\<forall>(k, c) \<in> set (fold (\<lambda>computer. insert_sorted (constData (uuid computer)) computer) loaded m).
           constData (uuid c) = k"
  using assms
proof (induction loaded arbitrary: m)
  case Nil
  then show ?case by simp
next
  case (Cons computer loaded)
  show ?case
    unfolding fold_Cons comp_apply
    by (rule Cons.IH) (rule keyed_insert_sorted [OF Cons.prems])
qed

lemma inflate_consistent: "consistent (inflate loaded st)"
  using keyed_fold [of "[]" loaded] by (simp add: consistent_def inflate_def keys_def)

lemma startPollingComputer_consistent:
  assumes "consistent m" and "constData (uuid computer) \<in> set (keys (m_KnownHosts m))"
    and "startPollingComputer computer m = Inr m'"
  shows "consistent m' \<and> m_KnownHosts m' = m_KnownHosts m"
proof (cases "m_Polling m \<and> map_of (m_PollThreads m) (constData (uuid computer)) = None")
  case False
  with assms(3) have "m' = m"
    by (auto simp: startPollingComputer_def split: if_splits option.splits)
  with assms(1) show ?thesis by simp
next
  case True
  with assms(3) have "m' = m\<lparr>m_PollThreads := insert_sorted (constData (uuid computer))
      \<lparr>isRunning = True, isInterruptionRequested = False\<rparr> (m_PollThreads m)\<rparr>"
    by (simp add: startPollingComputer_def)
  with assms(1,2) show ?thesis
    by (simp add: consistent_def keys_insert_sorted)
qed

lemma startPollingAll_consistent:
  assumes "consistent m" and "\<forall>c \<in> set computers. constData (uuid c) \<in> set (keys (m_KnownHosts m))"
    and "startPollingAll computers m = Inr m'"
  shows "consistent m'"
  using assms
proof (induction computers arbitrary: m)
  case Nil
  then show ?case by simp
next
  case (Cons computer computers)
  from Cons.prems(3) obtain m1 where
    step: "startPollingComputer computer m = Inr m1" and rest: "startPollingAll computers m1 = Inr m'"
    by (auto split: sum.splits)
  from startPollingComputer_consistent [OF Cons.prems(1) _ step] Cons.prems(2)
  have "consistent m1" and "m_KnownHosts m1 = m_KnownHosts m"
    by simp_all
  with Cons.IH [of m1] Cons.prems(2) rest show ?case
    by simp
qed

lemma startPolling_consistent:
  assumes "consistent m" and "startPolling m = Inr m'"
  shows "consistent m'"
proof (cases "m_Polling m")
  case True
  with assms show ?thesis by (simp add: startPolling_def)
next
  case False
  let ?m1 = "m\<lparr>m_Polling := True, m_MdnsBrowser := Some (Browser ''_nvstream._tcp.local.'')\<rparr>"
  have "consistent ?m1"
    using assms(1) by (simp add: consistent_def)
  moreover have "\<forall>c \<in> set (map snd (m_KnownHosts ?m1)).
      constData (uuid c) \<in> set (keys (m_KnownHosts ?m1))"
  proof
    fix c
    assume "c \<in> set (map snd (m_KnownHosts ?m1))"
    then obtain k where "(k, c) \<in> set (m_KnownHosts m)"
      by auto
    with assms(1) have "constData (uuid c) = k" and "k \<in> set (keys (m_KnownHosts m))"
      by (auto simp: consistent_def keys_def rev_image_eqI)
    then show "constData (uuid c) \<in> set (keys (m_KnownHosts ?m1))"
      by simp
  qed
  moreover have "startPollingAll (map snd (m_KnownHosts ?m1)) ?m1 = Inr m'"
    using assms(2) False by (simp add: startPolling_def Let_def)
  ultimately show ?thesis
    by (rule startPollingAll_consistent)
qed

lemma keys_removeKey: "set (keys (removeKey k m)) = set (keys m) - {k}"
  by (induction m) (auto simp: removeKey_def keys_def)

lemma set_removeKey: "set (removeKey k m) \<subseteq> set m"
  by (auto simp: removeKey_def)

lemma deleteHost_consistent:
  assumes "consistent m"
  shows "consistent (deleteHost computer m)"
proof -
  let ?key = "constData (uuid computer)"
  have "\<forall>(k, c) \<in> set (removeKey ?key (m_KnownHosts m)). constData (uuid c) = k"
    using assms set_removeKey [of ?key "m_KnownHosts m"]
    unfolding consistent_def by blast
  moreover have "set (keys (removeKey ?key (m_PollThreads m)))
      \<subseteq> set (keys (removeKey ?key (m_KnownHosts m)))"
    using assms unfolding consistent_def keys_removeKey by blast
  ultimately show ?thesis
    by (simp add: consistent_def deleteHost_def)
qed

lemma stopPollingAsync_consistent:
  assumes "consistent m"
  shows "consistent (stopPollingAsync m)"
  using assms by (simp add: consistent_def stopPollingAsync_def keys_def)

text \<open>
  Claim C6. When the status query of \<open>addNewHost\<close> fails, the call returns false and
  the manager is as before: no record inserted or changed, no thread started, no signal
  emitted, nothing saved. When the query succeeds, on consistent tables, the call
  returns true (and leaves the tables consistent).
\<close>

theorem addNewHost_result:
  "(getServerInfo http address = None \<longrightarrow> addNewHost http address mdns m = Inr (False, m))
   \<and> (getServerInfo http address \<noteq> None \<and> consistent m \<longrightarrow>
        (\<exists>m'. addNewHost http address mdns m = Inr (True, m') \<and> consistent m'))"
  using addNewHost_query_fails addNewHost_query_succeeds by blast

theorem addNewHost_result_witness:
  "getServerInfo gamestream (Some ''192.0.2.99'') = None
   \<and> addNewHost gamestream (Some ''192.0.2.99'') True polling_den_pc = Inr (False, polling_den_pc)
   \<and> getServerInfo gamestream (Some ''192.0.2.10'') \<noteq> None
   \<and> consistent polling_den_pc
   \<and> (\<exists>m'. addNewHost gamestream (Some ''192.0.2.10'') True polling_den_pc = Inr (True, m')
          \<and> consistent m')"
proof -
  have fails: "getServerInfo gamestream (Some ''192.0.2.99'') = None"
    and answers: "getServerInfo gamestream (Some ''192.0.2.10'') \<noteq> None"
    by (simp_all add: gamestream_def)
  have tables: "consistent polling_den_pc"
    by (simp add: consistent_def polling_den_pc_def no_hosts_def keys_def den_pc_def constData_def)
  from addNewHost_result [of gamestream "Some ''192.0.2.99''" True polling_den_pc]
    addNewHost_result [of gamestream "Some ''192.0.2.10''" True polling_den_pc]
    fails answers tables
  show ?thesis by blast
qed

text \<open>
  Claim C10. \<open>startPolling\<close> on a manager that is already polling returns at once: the
  manager is as before, with the same browser, the same threads and the same tables.
\<close>

theorem startPolling_when_polling:
  assumes "m_Polling m"
  shows "startPolling m = Inr m"
  using assms by (simp add: startPolling_def)

theorem startPolling_when_polling_witness:
  "m_Polling polling_den_pc \<and> startPolling polling_den_pc = Inr polling_den_pc"
proof -
  have polling: "m_Polling polling_den_pc"
    by (simp add: polling_den_pc_def)
  with startPolling_when_polling [OF polling] show ?thesis by simp
qed

text \<open>The first scenario of the specification: on an empty table, adding the server
  at \<open>192.0.2.10\<close> by hand gives one record, paired and online, with the address as
  its manual address, and one notification.\<close>

lemma addNewHost_first_host: "map_sum id (\<lambda>(ok, m'). (ok, keys (m_KnownHosts m'),
      map (\<lambda>(k, c). (pairState c, manualAddress c, state c)) (m_KnownHosts m'),
      computerStateChanged m'))
    (addNewHost gamestream (Some ''192.0.2.10'') False no_hosts)
   = Inr (True, [''X''], [(PS_PAIRED, Some ''192.0.2.10'', CS_ONLINE)], [''X''])"
  by code_simp

end
